theory Spec2Isabelle
  imports Complex_Main
begin

section \<open>Data model of \<open>h_server/task/task_system.py\<close>\<close>

text \<open>
  The module runs on one cooperative event loop: the dispatch loop \<open>TaskSystem.start\<close> and
  the handlers \<open>_process_event\<close> it launches are coroutines that give up control only at an
  \<open>await\<close>. Each coroutine is modelled as a resumable machine: a program counter naming the
  \<open>await\<close> it is suspended at, and a step function that runs the code from that \<open>await\<close>
  to the next one. What the awaited call did (returned, raised) is an input of the step, and
  so is the shared state found at that moment, which other coroutines may have changed.

  Seconds are real numbers (the source has Python floats; rounding is not modelled).
\<close>

record TaskEvent =
  task_id :: int
  kind :: string

text \<open>
  A runner instance. \<open>r_serial\<close> stands for the identity of the Python object: the n-th
  runner constructed by the loop has serial n. The state cache and the queue handed to the
  constructor are the system's own and are left out.
\<close>

record TaskRunner =
  r_task_id :: int
  r_task_name :: string
  r_distributed :: bool
  r_serial :: nat

text \<open>
  The exceptions the code distinguishes, in the order of its \<open>except\<close> clauses: the
  cancellation class of the backend, \<open>TaskError\<close> with its \<open>retry\<close> flag, and any other
  subclass of \<open>Exception\<close> (named by its class).
\<close>

datatype exn = Cancelled | TaskError bool | OtherException string

text \<open>
  The result of an awaited call. \<open>process_event\<close> returns the flag \<open>finished\<close>;
  \<open>ack\<close>, \<open>no_ack\<close> and \<open>sleep\<close> return \<open>None\<close>, and the flag is not used there.
  A \<open>TimeoutError\<close> of an enclosing \<open>fail_after\<close> reaches the code as the awaited call
  raising it.
\<close>

datatype outcome = Returns bool | Raises exn

datatype level = DEBUG | ERROR

datatype action =
    Call_process_event TaskRunner TaskEvent
  | Call_ack int
  | Call_no_ack int
  | Call_sleep real
  | Fail_after real bool
  | Scope_exit
  | Del int
  | Log level string

datatype hpc =
    H_start
  | H_process_event
  | H_ack
  | H_no_ack_cancelled
  | H_sleep
  | H_no_ack_retry
  | H_ack_error
  | H_no_ack_unknown
  | H_done "exn option"

text \<open>
  One running \<open>_process_event(ack_id, event)\<close>: its two parameters, where it is suspended,
  the cancel scopes it is inside (deadline in seconds, shield flag; innermost first), and
  the calls it has made so far.
\<close>

record handler =
  h_ack_id :: int
  h_event :: TaskEvent
  h_pc :: hpc
  h_scopes :: "(real \<times> bool) list"
  h_trace :: "action list"

datatype lpc =
    L_idle
  | L_get
  | L_init int TaskEvent
  | L_join "exn option"
  | L_finished "exn option"

text \<open>
  The \<open>TaskSystem\<close> object together with the frame of its running \<open>start\<close>.
  \<open>tg\<close> holds \<open>cancel_scope.cancel_called\<close> of the task group, \<open>stop_event\<close> whether the
  event is set. \<open>task_id_var\<close> and \<open>runner_var\<close> are the locals \<open>task_id\<close> and \<open>runner\<close> of
  \<open>start\<close>: \<open>_process_event\<close> does not take them as parameters, it refers to them as free
  variables, so every handler reads the one cell that the loop assigns on each iteration.
  \<open>tasks\<close> are the children of the task group and \<open>child_failed\<close> tells whether one of
  them has ended with an exception other than the cancellation. \<open>created\<close> counts the
  runners constructed and \<open>cancels\<close> the calls of \<open>cancel_scope.cancel()\<close> made by \<open>stop\<close>.
\<close>

record state =
  retry_delay :: real
  distributed :: bool
  task_name :: string
  tg :: "bool option"
  stop_event :: "bool option"
  runners :: "int \<rightharpoonup> TaskRunner"
  task_id_var :: "int option"
  runner_var :: "TaskRunner option"
  loop_pc :: lpc
  tasks :: "handler list"
  child_failed :: bool
  created :: nat
  cancels :: nat

section \<open>The handler \<open>_process_event\<close>\<close>

definition emit :: "action list \<Rightarrow> handler \<Rightarrow> handler" where
  "emit as h = h\<lparr>h_trace := h_trace h @ as\<rparr>"

definition fail_after :: "real \<Rightarrow> bool \<Rightarrow> handler \<Rightarrow> handler" where
  "fail_after d shield h = emit [Fail_after d shield] (h\<lparr>h_scopes := (d, shield) # h_scopes h\<rparr>)"

definition scope_exit :: "handler \<Rightarrow> handler" where
  "scope_exit h = emit [Scope_exit] (h\<lparr>h_scopes := tl (h_scopes h)\<rparr>)"

definition suspend :: "hpc \<Rightarrow> handler \<Rightarrow> handler" where
  "suspend pc h = h\<lparr>h_pc := pc\<rparr>"

definition raised :: "outcome \<Rightarrow> exn option" where
  "raised r = (case r of Returns _ \<Rightarrow> None | Raises e \<Rightarrow> Some e)"

text \<open>
  The three \<open>except\<close> clauses of \<open>_process_event\<close>, entered with an exception that left the
  \<open>try\<close> body, up to the first \<open>await\<close> of the clause.
\<close>

definition handle_exception :: "exn \<Rightarrow> state \<Rightarrow> handler \<Rightarrow> handler" where
  "handle_exception e s h =
     (case e of
        Cancelled \<Rightarrow>
          suspend H_no_ack_cancelled (emit [Call_no_ack (h_ack_id h)] (fail_after 5 True h))
      | TaskError retry \<Rightarrow>
          (let h1 = emit [Log ERROR ''failed''] h in
           if retry then
             suspend H_sleep
               (emit [Log DEBUG ''retry'', Call_sleep (retry_delay s)]
                  (fail_after (retry_delay s + 5) True h1))
           else
             suspend H_ack_error (emit [Call_ack (h_ack_id h)] (fail_after 5 True h1)))
      | OtherException n \<Rightarrow>
          suspend H_no_ack_unknown
            (emit [Call_no_ack (h_ack_id h)]
               (fail_after 5 True (emit [Log ERROR ''exception'', Log ERROR ''unknown error''] h))))"

text \<open>
  \<open>del self._runners[task_id]\<close>: the key is the current value of the loop's variable
  \<open>task_id\<close>; a missing key raises \<open>KeyError\<close>.
\<close>

definition del_runner :: "state \<Rightarrow> exn + int \<times> state" where
  "del_runner s =
     (case task_id_var s of
        None \<Rightarrow> Inl (OtherException ''NameError'')
      | Some t \<Rightarrow>
          (case runners s t of
             None \<Rightarrow> Inl (OtherException ''KeyError'')
           | Some r \<Rightarrow> Inr (t, s\<lparr>runners := (runners s)(t := None)\<rparr>)))"

text \<open>
  One step of a handler: from the \<open>await\<close> it is suspended at, with the outcome of the
  awaited call, to the next \<open>await\<close> or to its end. A handler that has not run yet starts
  its body (the outcome is not used). An exception raised at an \<open>await\<close> inside an
  \<open>except\<close> clause (at \<open>sleep\<close> too: the \<open>TimeoutError\<close> of a scope whose deadline
  \<open>retry_delay + 5\<close> has passed already) leaves the \<open>with\<close> block and the handler.
\<close>

definition resume :: "outcome \<Rightarrow> state \<Rightarrow> handler \<Rightarrow> state \<times> handler" where
  "resume r s h =
     (case h_pc h of
        H_start \<Rightarrow>
          (case runner_var s of
             None \<Rightarrow> (s, handle_exception (OtherException ''NameError'') s h)
           | Some rn \<Rightarrow>
               (s, suspend H_process_event (emit [Call_process_event rn (h_event h)] h)))
      | H_process_event \<Rightarrow>
          (case r of
             Raises e \<Rightarrow> (s, handle_exception e s h)
           | Returns finished \<Rightarrow>
               (let h1 = fail_after 5 True h in
                if finished then
                  (case del_runner s of
                     Inl e \<Rightarrow> (s, handle_exception e s (scope_exit h1))
                   | Inr (t, s') \<Rightarrow>
                       (s', suspend H_ack
                          (emit [Del t, Log DEBUG ''finished'', Call_ack (h_ack_id h)] h1)))
                else (s, suspend H_ack (emit [Call_ack (h_ack_id h)] h1))))
      | H_ack \<Rightarrow>
          (case r of
             Returns _ \<Rightarrow> (s, suspend (H_done None) (scope_exit (emit [Log DEBUG ''success''] h)))
           | Raises e \<Rightarrow> (s, handle_exception e s (scope_exit h)))
      | H_no_ack_cancelled \<Rightarrow>
          (case r of
             Returns _ \<Rightarrow> (s, suspend (H_done (Some Cancelled)) (scope_exit h))
           | Raises e \<Rightarrow> (s, suspend (H_done (Some e)) (scope_exit h)))
      | H_sleep \<Rightarrow>
          (case r of
             Returns _ \<Rightarrow> (s, suspend H_no_ack_retry (emit [Call_no_ack (h_ack_id h)] h))
           | Raises e \<Rightarrow> (s, suspend (H_done (Some e)) (scope_exit h)))
      | H_no_ack_retry \<Rightarrow> (s, suspend (H_done (raised r)) (scope_exit h))
      | H_ack_error \<Rightarrow>
          (case r of
             Raises e \<Rightarrow> (s, suspend (H_done (Some e)) (scope_exit h))
           | Returns _ \<Rightarrow>
               (case del_runner s of
                  Inl e \<Rightarrow> (s, suspend (H_done (Some e)) (scope_exit h))
                | Inr (t, s') \<Rightarrow>
                    (s', suspend (H_done None)
                       (scope_exit (emit [Del t, Log DEBUG ''finished with error''] h)))))
      | H_no_ack_unknown \<Rightarrow> (s, suspend (H_done (raised r)) (scope_exit h))
      | H_done x \<Rightarrow> (s, h))"

text \<open>
  \<open>tg.start_soon(_process_event, ack_id, event)\<close> creates the handler; it has not run yet.
\<close>

definition new_handler :: "int \<Rightarrow> TaskEvent \<Rightarrow> handler" where
  "new_handler a e = \<lparr>h_ack_id = a, h_event = e, h_pc = H_start, h_scopes = [], h_trace = []\<rparr>"

text \<open>
  A handler run from its creation. Each element gives the outcome of the call the handler
  was waiting for and the shared state at the moment it is resumed (whatever the loop and
  the other handlers made of it in between). The result is the handler at the end and, for
  each step, the shared state as the step left it.
\<close>

fun resumes :: "(outcome \<times> state) list \<Rightarrow> handler \<Rightarrow> handler \<times> state list" where
  "resumes [] h = (h, [])"
| "resumes ((r, s) # rs) h =
     (case resume r s h of (s', h') \<Rightarrow> (case resumes rs h' of (h'', ss) \<Rightarrow> (h'', s' # ss)))"

text \<open>
  Cooperative cancellation, as anyio delivers it: a cancelled scope raises the cancellation
  class at the \<open>await\<close> a task is suspended at, unless the task is inside a scope created
  with \<open>shield=True\<close>.
\<close>

definition shielded :: "handler \<Rightarrow> bool" where
  "shielded h = list_ex snd (h_scopes h)"

definition suspended :: "handler \<Rightarrow> bool" where
  "suspended h = (case h_pc h of H_start \<Rightarrow> False | H_done x \<Rightarrow> False | _ \<Rightarrow> True)"

definition deliver_cancel :: "state \<Rightarrow> handler \<Rightarrow> state \<times> handler" where
  "deliver_cancel s h =
     (if suspended h \<and> \<not> shielded h then resume (Raises Cancelled) s h else (s, h))"

section \<open>The dispatch loop \<open>TaskSystem.start\<close> and \<open>stop\<close>\<close>

text \<open>\<open>TaskSystem.__init__\<close>.\<close>

definition new_task_system :: "real \<Rightarrow> bool \<Rightarrow> string \<Rightarrow> state" where
  "new_task_system d dis n =
     \<lparr>retry_delay = d, distributed = dis, task_name = n, tg = None, stop_event = None,
      runners = Map.empty, task_id_var = None, runner_var = None, loop_pc = L_idle,
      tasks = [], child_failed = False, created = 0, cancels = 0\<rparr>"

definition start_soon :: "int \<Rightarrow> TaskEvent \<Rightarrow> state \<Rightarrow> state" where
  "start_soon a e s = s\<lparr>tasks := tasks s @ [new_handler a e]\<rparr>"

text \<open>
  An exception in the body of \<open>async with create_task_group()\<close>. The group waits for its
  children in either case. A cancellation that comes from the group's own scope, once that
  has been cancelled, is absorbed by the scope: the block is left without an exception.
  With any other exception the group cancels its scope, and the exception goes on when the
  children have ended.
\<close>

definition fail_loop :: "exn \<Rightarrow> state \<Rightarrow> state" where
  "fail_loop e s =
     (if e = Cancelled \<and> tg s = Some True then s\<lparr>loop_pc := L_join None\<rparr>
      else s\<lparr>loop_pc := L_join (Some e), tg := map_option (\<lambda>c. True) (tg s)\<rparr>)"

text \<open>\<open>while not self._stop_event.is_set(): ... await self.event_queue.get()\<close>.\<close>

definition loop_test :: "state \<Rightarrow> state" where
  "loop_test s =
     (case stop_event s of
        None \<Rightarrow> fail_loop (OtherException ''AttributeError'') s
      | Some True \<Rightarrow> s\<lparr>loop_pc := L_join None\<rparr>
      | Some False \<Rightarrow> s\<lparr>loop_pc := L_get\<rparr>)"

text \<open>
  \<open>start\<close> up to its first \<open>await\<close>: the two assertions, the stop event, the task group,
  and a fresh frame (its locals are unbound, the group has no children yet).
\<close>

definition start :: "state \<Rightarrow> exn + state" where
  "start s =
     (if stop_event s \<noteq> None \<or> tg s \<noteq> None then Inl (OtherException ''AssertionError'')
      else Inr (loop_test (s\<lparr>stop_event := Some False, tg := Some False,
                             task_id_var := None, runner_var := None, tasks := [],
                             child_failed := False\<rparr>)))"

definition construct :: "int \<Rightarrow> state \<Rightarrow> TaskRunner" where
  "construct t s =
     \<lparr>r_task_id = t, r_task_name = task_name s, r_distributed = distributed s,
      r_serial = created s\<rparr>"

datatype loop_input = Get_returns int TaskEvent | Init_returns | Loop_raises exn

definition is_done :: "handler \<Rightarrow> bool" where
  "is_done h = (case h_pc h of H_done x \<Rightarrow> True | _ \<Rightarrow> False)"

text \<open>
  One step of the loop, from the \<open>await\<close> it is suspended at (\<open>get\<close>, \<open>runner.init\<close>, or
  the end of the task group, which waits for the children) to the next one. The \<open>finally\<close>
  clause runs when the group has been left. An input that does not answer the pending
  \<open>await\<close> is not a step. When a child has failed, the group raises the failures as an
  exception group, and so does \<open>start\<close>.
\<close>

definition loop_step :: "loop_input \<Rightarrow> state \<Rightarrow> state" where
  "loop_step i s =
     (case loop_pc s of
        L_get \<Rightarrow>
          (case i of
             Get_returns a e \<Rightarrow>
               (let s1 = s\<lparr>task_id_var := Some (task_id e)\<rparr> in
                case runners s1 (task_id e) of
                  Some r \<Rightarrow> loop_test (start_soon a e (s1\<lparr>runner_var := Some r\<rparr>))
                | None \<Rightarrow>
                    s1\<lparr>runner_var := Some (construct (task_id e) s1),
                       created := Suc (created s1), loop_pc := L_init a e\<rparr>)
           | Init_returns \<Rightarrow> s
           | Loop_raises x \<Rightarrow> fail_loop x s)
      | L_init a e \<Rightarrow>
          (case i of
             Init_returns \<Rightarrow>
               (case task_id_var s of
                  None \<Rightarrow> fail_loop (OtherException ''NameError'') s
                | Some t \<Rightarrow>
                    (case runner_var s of
                       None \<Rightarrow> fail_loop (OtherException ''NameError'') s
                     | Some r \<Rightarrow>
                         loop_test (start_soon a e (s\<lparr>runners := (runners s)(t \<mapsto> r)\<rparr>))))
           | Get_returns a' e' \<Rightarrow> s
           | Loop_raises x \<Rightarrow> fail_loop x s)
      | L_join x \<Rightarrow>
          (if list_all is_done (tasks s)
           then s\<lparr>tg := None, stop_event := None,
                  loop_pc := L_finished
                    (if child_failed s then Some (OtherException ''ExceptionGroup'') else x)\<rparr>
           else s)
      | L_idle \<Rightarrow> s
      | L_finished x \<Rightarrow> s)"

text \<open>\<open>TaskSystem.stop\<close>.\<close>

definition stop :: "state \<Rightarrow> state" where
  "stop s =
     (let s1 = (case stop_event s of None \<Rightarrow> s | Some b \<Rightarrow> s\<lparr>stop_event := Some True\<rparr>) in
      case tg s1 of
        None \<Rightarrow> s1
      | Some cancel_called \<Rightarrow>
          if \<not> cancel_called then s1\<lparr>tg := Some True, cancels := Suc (cancels s1)\<rparr> else s1)"

text \<open>
  The scheduler: which coroutine runs next, and what its awaited call did. A run of the
  system is a list of such choices. Any interleaving of the loop and the handlers at their
  \<open>await\<close>s is a run.
\<close>

datatype choice = Start | Loop loop_input | Handler nat outcome | Cancel nat | Stop

text \<open>
  A child of the task group has made a step, from \<open>h\<close> to \<open>h'\<close>. When it has ended with
  an exception other than the cancellation, the group cancels its scope.
\<close>

definition failed :: "handler \<Rightarrow> bool" where
  "failed h = (case h_pc h of H_done (Some e) \<Rightarrow> e \<noteq> Cancelled | _ \<Rightarrow> False)"

definition child_step :: "nat \<Rightarrow> handler \<Rightarrow> handler \<Rightarrow> state \<Rightarrow> state" where
  "child_step k h h' s =
     (let s1 = s\<lparr>tasks := (tasks s)[k := h']\<rparr> in
      if \<not> is_done h \<and> failed h'
      then s1\<lparr>tg := map_option (\<lambda>c. True) (tg s1), child_failed := True\<rparr>
      else s1)"

definition step :: "choice \<Rightarrow> state \<Rightarrow> state" where
  "step c s =
     (case c of
        Start \<Rightarrow> (case start s of Inl e \<Rightarrow> s | Inr s' \<Rightarrow> s')
      | Loop i \<Rightarrow> loop_step i s
      | Handler k r \<Rightarrow>
          (if k < length (tasks s)
           then (case resume r s (tasks s ! k) of (s', h') \<Rightarrow> child_step k (tasks s ! k) h' s')
           else s)
      | Cancel k \<Rightarrow>
          (if k < length (tasks s) \<and> tg s = Some True
           then (case deliver_cancel s (tasks s ! k) of
                   (s', h') \<Rightarrow> child_step k (tasks s ! k) h' s')
           else s)
      | Stop \<Rightarrow> stop s)"

fun exec :: "choice list \<Rightarrow> state \<Rightarrow> state" where
  "exec [] s = s"
| "exec (c # cs) s = exec cs (step c s)"

section \<open>The module's default task system\<close>

text \<open>
  The module variable \<open>_default_task_system\<close>, with \<open>set_task_system\<close> and
  \<open>get_task_system\<close>; \<open>'ts\<close> is the reference to a \<open>TaskSystem\<close> instance.
\<close>

definition set_task_system :: "'ts \<Rightarrow> 'ts option \<Rightarrow> 'ts option" where
  "set_task_system task_system default_task_system = Some task_system"

definition get_task_system :: "'ts option \<Rightarrow> exn + 'ts" where
  "get_task_system default_task_system =
     (case default_task_system of
        None \<Rightarrow> Inl (OtherException ''AssertionError'')
      | Some ts \<Rightarrow> Inr ts)"

section \<open>Invariant of the registry and sample inputs\<close>

text \<open>
  Every registered runner was constructed for the identifier it is registered under, and
  while the loop waits for \<open>runner.init()\<close> of a runner it has just constructed, the loop's
  variables name that runner and its task, and the registry has no entry for that task.
\<close>

definition registry_inv :: "state \<Rightarrow> bool" where
  "registry_inv s \<longleftrightarrow>
     (\<forall>t r. runners s t = Some r \<longrightarrow> r_task_id r = t) \<and>
     (\<forall>a e. loop_pc s = L_init a e \<longrightarrow>
        task_id_var s = Some (task_id e) \<and> runners s (task_id e) = None \<and>
        (\<exists>r. runner_var s = Some r \<and> r_task_id r = task_id e))"

definition ev1 :: TaskEvent where
  "ev1 = \<lparr>task_id = 1, kind = ''created''\<rparr>"

definition ev2 :: TaskEvent where
  "ev2 = \<lparr>task_id = 2, kind = ''created''\<rparr>"

definition rn1 :: TaskRunner where
  "rn1 = \<lparr>r_task_id = 1, r_task_name = ''sd_lora_inference'', r_distributed = False,
          r_serial = 0\<rparr>"

definition rn2 :: TaskRunner where
  "rn2 = \<lparr>r_task_id = 2, r_task_name = ''sd_lora_inference'', r_distributed = False,
          r_serial = 1\<rparr>"

definition rn3 :: TaskRunner where
  "rn3 = \<lparr>r_task_id = 2, r_task_name = ''sd_lora_inference'', r_distributed = False,
          r_serial = 2\<rparr>"

text \<open>A system with the default settings, and the same after its first event was dispatched.\<close>

definition ts0 :: state where
  "ts0 = new_task_system 5 False ''sd_lora_inference''"

definition ts_started :: state where
  "ts_started = exec [Start] ts0"

definition ts_init :: state where
  "ts_init = exec [Loop (Get_returns 101 ev1)] ts_started"

definition ts1 :: state where
  "ts1 = exec [Start, Loop (Get_returns 101 ev1), Loop Init_returns] ts0"

text \<open>
  Runs that go on from \<open>ts1\<close>, where the handler of the first event (task 1, delivery 101)
  has been launched. The first step of a handler starts its body. In each run a second
  event, for task 2, arrives while the first handler is under way.
\<close>

definition run_late_removal :: state where
  "run_late_removal =
     exec [Handler 0 (Returns False), Loop (Get_returns 102 ev2), Loop Init_returns,
           Handler 0 (Returns True)] ts1"

definition run_late_start :: state where
  "run_late_start =
     exec [Loop (Get_returns 102 ev2), Loop Init_returns, Handler 0 (Returns False),
           Handler 0 (Returns True)] ts1"

definition run_finished_during_init :: state where
  "run_finished_during_init =
     exec [Handler 0 (Returns False), Loop (Get_returns 102 ev2), Handler 0 (Returns True),
           Handler 0 (Returns False)] ts1"

definition run_error_late :: state where
  "run_error_late =
     exec [Handler 0 (Returns False), Loop (Get_returns 102 ev2), Loop Init_returns,
           Handler 0 (Raises (TaskError False)), Handler 0 (Returns False)] ts1"

text \<open>
  The loop registers a runner for task 2 and launches its handler; the first handler ends
  with \<open>finished = True\<close>; then the next event of task 2 arrives.
\<close>

definition run_second_runner :: state where
  "run_second_runner =
     exec [Handler 0 (Returns False), Loop (Get_returns 102 ev2), Loop Init_returns,
           Handler 1 (Returns False), Handler 0 (Returns True), Loop (Get_returns 103 ev2),
           Loop Init_returns, Handler 2 (Returns False)] ts1"

text \<open>
  \<open>stop\<close> is called while the first handler waits for \<open>process_event\<close>; the cancellation
  is delivered to it, and its \<open>no_ack\<close> does not return within the 5 seconds of its scope.
\<close>

definition run_cancel_no_ack_timeout :: state where
  "run_cancel_no_ack_timeout =
     exec [Handler 0 (Returns False), Stop, Cancel 0,
           Handler 0 (Raises (OtherException ''TimeoutError''))] ts1"

text \<open>
  The first handler has met a retryable error and sleeps; then \<open>stop\<close> is called.
\<close>

definition run_stop_during_backoff :: state where
  "run_stop_during_backoff =
     exec [Handler 0 (Returns False), Handler 0 (Raises (TaskError True)), Stop] ts1"

text \<open>\<open>start\<close> has been stopped and cancelled at \<open>get\<close>, and waits to leave its task group.\<close>

definition ts_joining :: state where
  "ts_joining = exec [Start, Stop, Loop (Loop_raises Cancelled)] ts0"

section \<open>Properties of the handler\<close>

lemmas handler_defs =
  resume_def emit_def suspend_def fail_after_def scope_exit_def handle_exception_def
  del_runner_def raised_def new_handler_def

lemmas loop_defs =
  step_def start_def loop_step_def loop_test_def start_soon_def fail_loop_def construct_def
  new_task_system_def stop_def child_step_def failed_def is_done_def

lemmas sample_defs = ev1_def ev2_def rn1_def rn2_def rn3_def ts0_def ts1_def ts_started_def ts_init_def

lemmas run_defs =
  run_late_removal_def run_late_start_def run_finished_during_init_def run_error_late_def
  run_stop_during_backoff_def ts_joining_def run_second_runner_def
  run_cancel_no_ack_timeout_def

lemma ts1_runner_var: "runner_var ts1 = Some rn1"
  by (simp add: sample_defs loop_defs)

lemma ts1_retry_delay: "retry_delay ts1 = 5"
  by (simp add: sample_defs loop_defs)



text \<open>
  A sleep that raises (the deadline of its scope has passed before the sleep is over)
  ends the handler with that exception; \<open>no_ack\<close> is not called.
\<close>

lemma retryable_error_sleep_raises:
  assumes "runner_var s0 = Some rn"
  shows "resumes [(r0, s0), (Raises (TaskError True), s1), (Raises x, s2)] (new_handler a e) =
    (\<lparr>h_ack_id = a, h_event = e, h_pc = H_done (Some x), h_scopes = [],
      h_trace = [Call_process_event rn e, Log ERROR ''failed'',
                 Fail_after (retry_delay s1 + 5) True, Log DEBUG ''retry'',
                 Call_sleep (retry_delay s1), Scope_exit]\<rparr>,
     [s0, s1, s2])"
  using assms by (simp add: handler_defs)

text \<open>
  C5. When \<open>process_event\<close> raises an exception that is neither a \<open>TaskError\<close> nor the
  cancellation, the handler logs it twice at error level and calls \<open>no_ack\<close> on its
  delivery at once, with no sleep, once; it never calls \<open>ack\<close> and no step of it changes
  the shared state.
\<close>

theorem unknown_error_no_ack_at_once:
  assumes "runner_var s0 = Some rn"
  shows "resumes [(r0, s0), (Raises (OtherException x), s1), (r2, s2)] (new_handler a e) =
    (\<lparr>h_ack_id = a, h_event = e, h_pc = H_done (raised r2), h_scopes = [],
      h_trace = [Call_process_event rn e, Log ERROR ''exception'', Log ERROR ''unknown error'',
                 Fail_after 5 True, Call_no_ack a, Scope_exit]\<rparr>,
     [s0, s1, s2])"
  using assms by (simp add: handler_defs)

theorem unknown_error_no_ack_at_once_witness:
  "runner_var ts1 = Some rn1 \<and>
   resumes [(Returns False, ts1), (Raises (OtherException ''ValueError''), ts1),
            (Returns False, ts1)] (new_handler 101 ev1) =
    (\<lparr>h_ack_id = 101, h_event = ev1, h_pc = H_done None, h_scopes = [],
      h_trace = [Call_process_event rn1 ev1, Log ERROR ''exception'',
                 Log ERROR ''unknown error'', Fail_after 5 True, Call_no_ack 101,
                 Scope_exit]\<rparr>,
     [ts1, ts1, ts1])"
  using unknown_error_no_ack_at_once [OF ts1_runner_var,
      of "Returns False" "''ValueError''" ts1 "Returns False" ts1 101 ev1]
  by (simp add: ts1_runner_var raised_def)

text \<open>
  C6, as the code has it. When the cancellation is raised at the \<open>await\<close> of
  \<open>process_event\<close> (where the dispatcher's cancellation is delivered, the handler being in
  no shielded scope), the handler calls \<open>no_ack\<close> on its delivery once, inside a scope with
  a deadline of 5 seconds that is shielded: while it waits for \<open>no_ack\<close> a further
  cancellation is not delivered to it. When \<open>no_ack\<close> returns, the handler raises the
  cancellation again; when \<open>no_ack\<close> raises, that exception leaves the handler in its
  place. Either way the handler ends with an exception, it never calls \<open>ack\<close>, and no step
  of it changes the shared state.
\<close>

theorem cancellation_no_ack_then_reraise:
  assumes "runner_var s0 = Some rn"
  shows "resumes [(r0, s0), (Raises Cancelled, s1)] (new_handler a e) =
    (\<lparr>h_ack_id = a, h_event = e, h_pc = H_no_ack_cancelled, h_scopes = [(5, True)],
      h_trace = [Call_process_event rn e, Fail_after 5 True, Call_no_ack a]\<rparr>,
     [s0, s1]) \<and>
    shielded (fst (resumes [(r0, s0), (Raises Cancelled, s1)] (new_handler a e))) \<and>
    deliver_cancel u (fst (resumes [(r0, s0), (Raises Cancelled, s1)] (new_handler a e))) =
      (u, fst (resumes [(r0, s0), (Raises Cancelled, s1)] (new_handler a e))) \<and>
    resumes [(r0, s0), (Raises Cancelled, s1), (r2, s2)] (new_handler a e) =
    (\<lparr>h_ack_id = a, h_event = e,
      h_pc = H_done (Some (case r2 of Returns b \<Rightarrow> Cancelled | Raises x \<Rightarrow> x)),
      h_scopes = [],
      h_trace = [Call_process_event rn e, Fail_after 5 True, Call_no_ack a, Scope_exit]\<rparr>,
     [s0, s1, s2]) \<and>
    deliver_cancel s1 (fst (resumes [(r0, s0)] (new_handler a e))) =
      resume (Raises Cancelled) s1 (fst (resumes [(r0, s0)] (new_handler a e)))"
  using assms by (simp add: handler_defs deliver_cancel_def shielded_def suspended_def
      split: outcome.split)

theorem cancellation_no_ack_then_reraise_witness:
  "runner_var ts1 = Some rn1 \<and>
   shielded (fst (resumes [(Returns False, ts1), (Raises Cancelled, ts1)]
                    (new_handler 101 ev1))) \<and>
   resumes [(Returns False, ts1), (Raises Cancelled, ts1), (Returns False, ts1)]
       (new_handler 101 ev1) =
    (\<lparr>h_ack_id = 101, h_event = ev1, h_pc = H_done (Some Cancelled), h_scopes = [],
      h_trace = [Call_process_event rn1 ev1, Fail_after 5 True, Call_no_ack 101,
                 Scope_exit]\<rparr>,
     [ts1, ts1, ts1])"
  using cancellation_no_ack_then_reraise [OF ts1_runner_var,
      of "Returns False" ts1 101 ev1 ts1 "Returns False" ts1, unfolded outcome.case]
    ts1_runner_var
  by blast

text \<open>
  C6 as the specification states it fails: \<open>stop\<close> cancels the handler at \<open>process_event\<close>,
  the handler calls \<open>no_ack\<close>, and \<open>no_ack\<close> has not returned when the 5 seconds of its
  scope are over. The handler ends with the \<open>TimeoutError\<close>, not with the cancellation, and
  the task group counts it as a failed child.
\<close>

theorem cancellation_replaced_by_no_ack_failure:
  "h_trace (tasks run_cancel_no_ack_timeout ! 0) =
     [Call_process_event rn1 ev1, Fail_after 5 True, Call_no_ack 101, Scope_exit] \<and>
   h_pc (tasks run_cancel_no_ack_timeout ! 0) = H_done (Some (OtherException ''TimeoutError'')) \<and>
   h_pc (tasks run_cancel_no_ack_timeout ! 0) \<noteq> H_done (Some Cancelled) \<and>
   child_failed run_cancel_no_ack_timeout"
  by (simp add: run_defs sample_defs loop_defs handler_defs deliver_cancel_def shielded_def
      suspended_def)

text \<open>
  C7, as the code has it. The backoff sleep, and the \<open>no_ack\<close> that follows when the
  sleep has returned, run inside one scope whose deadline is \<open>retry_delay + 5\<close> seconds and
  which is created with \<open>shield=True\<close>: while the handler sleeps, and while it waits for
  \<open>no_ack\<close>, a cancellation from outside is not delivered to it. The scope is left when
  \<open>no_ack\<close> is over, or when the sleep raises, and the handler ends there.
\<close>

theorem backoff_scope_deadline_and_shield:
  assumes "runner_var sa = Some rn"
  shows "(case resumes [(ra, sa), (Raises (TaskError True), sb)] (new_handler a e) of
            (h, ss) \<Rightarrow>
              h_pc h = H_sleep \<and> h_scopes h = [(retry_delay sb + 5, True)] \<and>
              h_trace h = [Call_process_event rn e, Log ERROR ''failed'',
                           Fail_after (retry_delay sb + 5) True, Log DEBUG ''retry'',
                           Call_sleep (retry_delay sb)] \<and>
              shielded h \<and> deliver_cancel u h = (u, h) \<and>
              (case resume (Returns b) sc h of
                 (sc', h') \<Rightarrow>
                   h_pc h' = H_no_ack_retry \<and> h_scopes h' = [(retry_delay sb + 5, True)] \<and>
                   h_trace h' = h_trace h @ [Call_no_ack a] \<and>
                   shielded h' \<and> deliver_cancel v h' = (v, h') \<and>
                   h_scopes (snd (resume rd sd h')) = [] \<and>
                   h_trace (snd (resume rd sd h')) = h_trace h' @ [Scope_exit] \<and>
                   h_pc (snd (resume rd sd h')) = H_done (raised rd)) \<and>
              (case resume (Raises x) sc h of
                 (sc', h') \<Rightarrow>
                   h_pc h' = H_done (Some x) \<and> h_scopes h' = [] \<and>
                   h_trace h' = h_trace h @ [Scope_exit]))"
  using assms by (simp add: handler_defs deliver_cancel_def shielded_def)

theorem backoff_scope_deadline_and_shield_witness:
  "runner_var ts1 = Some rn1 \<and>
   (case resumes [(Returns False, ts1), (Raises (TaskError True), ts1)] (new_handler 101 ev1) of
      (h, ss) \<Rightarrow> h_pc h = H_sleep \<and> h_scopes h = [(10, True)] \<and> deliver_cancel ts1 h = (ts1, h))"
  using backoff_scope_deadline_and_shield [OF ts1_runner_var,
      where ra = "Returns False" and sb = ts1 and a = 101 and e = ev1 and u = ts1
        and b = False and sc = ts1 and v = ts1 and rd = "Returns False" and sd = ts1
        and x = Cancelled]
  by (simp add: ts1_runner_var ts1_retry_delay split: prod.splits)

text \<open>
  C7 as the specification states it fails: after \<open>stop\<close> has cancelled the scope of the
  task group, the cancellation is not delivered to the handler that sleeps in its backoff
  (delivering it changes nothing); the handler sleeps on, calls \<open>no_ack\<close> and returns.
\<close>

theorem backoff_sleep_not_cancellable:
  "tg run_stop_during_backoff = Some True \<and>
   h_pc (tasks run_stop_during_backoff ! 0) = H_sleep \<and>
   shielded (tasks run_stop_during_backoff ! 0) \<and>
   step (Cancel 0) run_stop_during_backoff = run_stop_during_backoff \<and>
   h_trace (tasks (exec [Cancel 0, Handler 0 (Returns False), Handler 0 (Returns False)]
                     run_stop_during_backoff) ! 0) =
     [Call_process_event rn1 ev1, Log ERROR ''failed'', Fail_after 10 True, Log DEBUG ''retry'',
      Call_sleep 5, Call_no_ack 101, Scope_exit] \<and>
   h_pc (tasks (exec [Cancel 0, Handler 0 (Returns False), Handler 0 (Returns False)]
                  run_stop_during_backoff) ! 0) = H_done None"
  by (simp add: run_defs sample_defs loop_defs handler_defs deliver_cancel_def shielded_def
      suspended_def)

section \<open>The closure variables of the handler\<close>

text \<open>
  C1. The handler is given the delivery and the event only; the runner and the task
  identifier it uses are the loop's variables at the time it reads them. Once the loop has
  resolved an event of task 2, the handler of the event of task 1 deletes the registry
  entry of task 2 and leaves its own task registered; and a handler that starts only after
  that calls \<open>process_event\<close> of the runner of task 2 with the event of task 1.
\<close>

theorem handler_uses_loop_variables_of_later_event:
  "h_event (tasks run_late_removal ! 0) = ev1 \<and>
   h_trace (tasks run_late_removal ! 0) =
     [Call_process_event rn1 ev1, Fail_after 5 True, Del 2, Log DEBUG ''finished'',
      Call_ack 101] \<and>
   runners run_late_removal 1 = Some rn1 \<and>
   runners run_late_removal 2 = None \<and>
   h_event (tasks run_late_start ! 0) = ev1 \<and>
   h_trace (tasks run_late_start ! 0) =
     [Call_process_event rn2 ev1, Fail_after 5 True, Del 2, Log DEBUG ''finished'',
      Call_ack 101]"
  by (simp add: run_defs sample_defs loop_defs handler_defs)

text \<open>
  C2. \<open>process_event\<close> of the event of task 1 returns \<open>finished = True\<close> while the loop
  waits for \<open>init\<close> of the runner of task 2: the \<open>del\<close> looks up task 2, which is not
  registered yet, the \<open>KeyError\<close> is taken for an unknown failure, and the handler calls
  \<open>no_ack\<close>. It never calls \<open>ack\<close>, and task 1 stays registered.
\<close>

theorem finished_event_not_acked_nor_removed:
  "loop_pc run_finished_during_init = L_init 102 ev2 \<and>
   h_pc (tasks run_finished_during_init ! 0) = H_done None \<and>
   h_trace (tasks run_finished_during_init ! 0) =
     [Call_process_event rn1 ev1, Fail_after 5 True, Scope_exit, Log ERROR ''exception'',
      Log ERROR ''unknown error'', Fail_after 5 True, Call_no_ack 101, Scope_exit] \<and>
   runners run_finished_during_init 1 = Some rn1"
  by (simp add: run_defs sample_defs loop_defs handler_defs)

text \<open>
  C4. \<open>process_event\<close> of the event of task 1 raises a \<open>TaskError\<close> that is not to be
  retried, after the loop has resolved an event of task 2: the handler acknowledges its
  delivery and then deletes the registry entry of task 2; task 1 stays registered.
\<close>

theorem terminal_error_removes_other_runner:
  "h_pc (tasks run_error_late ! 0) = H_done None \<and>
   h_trace (tasks run_error_late ! 0) =
     [Call_process_event rn1 ev1, Log ERROR ''failed'', Fail_after 5 True, Call_ack 101,
      Del 2, Log DEBUG ''finished with error'', Scope_exit] \<and>
   runners run_error_late 1 = Some rn1 \<and>
   runners run_error_late 2 = None"
  by (simp add: run_defs sample_defs loop_defs handler_defs)

section \<open>The registry\<close>

text \<open>
  What holds of the registry in every run: a handler changes the shared state only by
  deleting one entry; every registered runner was constructed for its key; while the loop
  waits for \<open>init\<close> of a new runner the registry has no entry for its task, so the
  registration that follows replaces nothing; a runner is constructed only by the loop, on
  an event whose task has no entry; and of two events of one unregistered task received
  with no step of a handler in between, the second finds the runner of the first. None of
  this keeps a handler of another task from deleting the entry in between.
\<close>

lemma del_runner_state:
  "del_runner s = Inr (t, s') \<Longrightarrow> s' = s\<lparr>runners := (runners s)(t := None)\<rparr>"
  by (auto simp: del_runner_def split: option.splits)

lemma resume_state:
  "resume r s h = (s', h') \<Longrightarrow> s' = s \<or> (\<exists>t. s' = s\<lparr>runners := (runners s)(t := None)\<rparr>)"
  by (auto simp: resume_def Let_def dest: del_runner_state
      split: hpc.splits option.splits outcome.splits sum.splits if_splits prod.splits)

lemma deliver_cancel_state:
  "deliver_cancel s h = (s', h') \<Longrightarrow> s' = s \<or> (\<exists>t. s' = s\<lparr>runners := (runners s)(t := None)\<rparr>)"
  by (auto simp: deliver_cancel_def dest: resume_state split: if_splits)

lemma registry_inv_del: "registry_inv s \<Longrightarrow> registry_inv (s\<lparr>runners := (runners s)(t := None)\<rparr>)"
  by (auto simp: registry_inv_def)

lemma registry_inv_child_step: "registry_inv (child_step k h h' s) = registry_inv s"
  by (simp add: registry_inv_def child_step_def Let_def)

lemma created_child_step: "created (child_step k h h' s) = created s"
  by (simp add: child_step_def Let_def)

lemma registry_inv_stop: "registry_inv s \<Longrightarrow> registry_inv (stop s)"
  by (auto simp: registry_inv_def stop_def Let_def split: option.splits)

lemma registry_inv_loop_test: "registry_inv s \<Longrightarrow> (\<And>a e. loop_pc s \<noteq> L_init a e) \<Longrightarrow> registry_inv (loop_test s)"
  by (auto simp: registry_inv_def loop_test_def fail_loop_def split: option.splits bool.splits)

lemma registry_inv_start: "registry_inv s \<Longrightarrow> start s = Inr s' \<Longrightarrow> registry_inv s'"
  by (auto simp: registry_inv_def start_def loop_test_def split: if_splits)

lemma registry_inv_loop_step: "registry_inv s \<Longrightarrow> registry_inv (loop_step i s)"
  by (cases "loop_pc s"; cases i)
    (auto simp: registry_inv_def loop_step_def loop_test_def start_soon_def fail_loop_def
      construct_def Let_def split: option.splits bool.splits if_splits)

lemma registry_inv_step: "registry_inv s \<Longrightarrow> registry_inv (step c s)"
proof (cases c)
  case Start
  assume "registry_inv s"
  then show ?thesis using Start
    by (auto simp: step_def dest: registry_inv_start split: sum.splits)
next
  case (Loop i)
  assume "registry_inv s"
  then show ?thesis using Loop by (simp add: step_def registry_inv_loop_step)
next
  case (Handler k r)
  assume inv: "registry_inv s"
  show ?thesis
  proof (cases "k < length (tasks s)")
    case True
    obtain s' h' where r: "resume r s (tasks s ! k) = (s', h')" by (cases "resume r s (tasks s ! k)")
    from resume_state [OF r] inv have "registry_inv s'" by (auto intro: registry_inv_del)
    then show ?thesis using Handler True r by (simp add: step_def registry_inv_child_step)
  next
    case False
    then show ?thesis using Handler inv by (simp add: step_def)
  qed
next
  case (Cancel k)
  assume inv: "registry_inv s"
  show ?thesis
  proof (cases "k < length (tasks s) \<and> tg s = Some True")
    case True
    obtain s' h' where r: "deliver_cancel s (tasks s ! k) = (s', h')"
      by (cases "deliver_cancel s (tasks s ! k)")
    from deliver_cancel_state [OF r] inv have "registry_inv s'" by (auto intro: registry_inv_del)
    then show ?thesis using Cancel True r by (simp add: step_def registry_inv_child_step)
  next
    case False
    then show ?thesis using Cancel inv by (auto simp: step_def)
  qed
next
  case Stop
  assume "registry_inv s"
  then show ?thesis using Stop by (simp add: step_def registry_inv_stop)
qed

lemma registry_inv_exec: "registry_inv s \<Longrightarrow> registry_inv (exec cs s)"
  by (induction cs arbitrary: s) (simp_all add: registry_inv_step)

lemma registry_inv_new: "registry_inv (new_task_system d dis n)"
  by (simp add: registry_inv_def new_task_system_def)

lemma registry_inv_reachable: "registry_inv (exec cs (new_task_system d dis n))"
  by (rule registry_inv_exec [OF registry_inv_new])

lemma created_step:
  "created (step c s) \<noteq> created s \<Longrightarrow>
     \<exists>a e. c = Loop (Get_returns a e) \<and> loop_pc s = L_get \<and> runners s (task_id e) = None \<and>
       created (step c s) = Suc (created s) \<and> loop_pc (step c s) = L_init a e"
proof (cases c)
  case Start
  assume "created (step c s) \<noteq> created s"
  then show ?thesis using Start
    by (auto simp: step_def start_def loop_test_def fail_loop_def split: sum.splits if_splits option.splits bool.splits)
next
  case (Loop i)
  assume "created (step c s) \<noteq> created s"
  then show ?thesis using Loop
    by (cases "loop_pc s"; cases i)
      (auto simp: step_def loop_step_def loop_test_def start_soon_def fail_loop_def Let_def
        split: option.splits bool.splits if_splits)
next
  case (Handler k r)
  assume a: "created (step c s) \<noteq> created s"
  show ?thesis
  proof (cases "k < length (tasks s)")
    case True
    obtain s' h' where r: "resume r s (tasks s ! k) = (s', h')" by (cases "resume r s (tasks s ! k)")
    from resume_state [OF r] have "created s' = created s" by auto
    then show ?thesis using Handler True r a by (simp add: step_def created_child_step)
  next
    case False
    then show ?thesis using Handler a by (simp add: step_def)
  qed
next
  case (Cancel k)
  assume a: "created (step c s) \<noteq> created s"
  show ?thesis
  proof (cases "k < length (tasks s) \<and> tg s = Some True")
    case True
    obtain s' h' where r: "deliver_cancel s (tasks s ! k) = (s', h')"
      by (cases "deliver_cancel s (tasks s ! k)")
    from deliver_cancel_state [OF r] have "created s' = created s" by auto
    then show ?thesis using Cancel True r a by (simp add: step_def created_child_step)
  next
    case False
    then show ?thesis using Cancel a by (auto simp: step_def)
  qed
next
  case Stop
  assume "created (step c s) \<noteq> created s"
  then show ?thesis using Stop by (auto simp: step_def stop_def Let_def split: option.splits if_splits)
qed

lemma registration_completes:
  "registry_inv s \<Longrightarrow> loop_pc s = L_init a e \<Longrightarrow>
     runners (step (Loop Init_returns) s) (task_id e) = runner_var s \<and> runner_var s \<noteq> None \<and>
     (\<forall>b f. loop_pc (step (Loop Init_returns) s) \<noteq> L_init b f) \<and>
     tasks (step (Loop Init_returns) s) = tasks s @ [new_handler a e]"
  by (auto simp: registry_inv_def step_def loop_step_def loop_test_def start_soon_def fail_loop_def
      split: option.splits bool.splits)

lemma back_to_back:
  "loop_pc s = L_get \<Longrightarrow> stop_event s = Some False \<Longrightarrow> runners s (task_id e1) = None \<Longrightarrow> task_id e2 = task_id e1 \<Longrightarrow>
     created (exec [Loop (Get_returns a1 e1), Loop Init_returns, Loop (Get_returns a2 e2)] s) = Suc (created s) \<and>
     runner_var (exec [Loop (Get_returns a1 e1), Loop Init_returns, Loop (Get_returns a2 e2)] s) = Some (construct (task_id e1) s) \<and>
     runners (exec [Loop (Get_returns a1 e1), Loop Init_returns, Loop (Get_returns a2 e2)] s) (task_id e1) = Some (construct (task_id e1) s) \<and>
     tasks (exec [Loop (Get_returns a1 e1), Loop Init_returns, Loop (Get_returns a2 e2)] s) = tasks s @ [new_handler a1 e1, new_handler a2 e2]"
  by (simp add: step_def loop_step_def loop_test_def start_soon_def construct_def Let_def)

text \<open>
  C8. The handler of task 1 ends with \<open>finished = True\<close> after the loop has registered a
  runner for task 2 and launched its handler: it deletes the entry of task 2. The next
  event of task 2 finds no entry, and the loop constructs a second runner for task 2 while
  the handler of the first one is still in \<open>process_event\<close>: three runners have been
  constructed for two tasks, and two handlers of task 2 run on two runners.
\<close>

theorem second_runner_for_live_task:
  "created run_second_runner = 3 \<and>
   h_trace (tasks run_second_runner ! 0) =
     [Call_process_event rn1 ev1, Fail_after 5 True, Del 2, Log DEBUG ''finished'',
      Call_ack 101] \<and>
   h_event (tasks run_second_runner ! 1) = ev2 \<and>
   h_pc (tasks run_second_runner ! 1) = H_process_event \<and>
   h_trace (tasks run_second_runner ! 1) = [Call_process_event rn2 ev2] \<and>
   h_event (tasks run_second_runner ! 2) = ev2 \<and>
   h_pc (tasks run_second_runner ! 2) = H_process_event \<and>
   h_trace (tasks run_second_runner ! 2) = [Call_process_event rn3 ev2] \<and>
   runners run_second_runner 1 = Some rn1 \<and>
   runners run_second_runner 2 = Some rn3"
  by (simp add: run_defs sample_defs loop_defs handler_defs)

section \<open>Stopping, and the default task system\<close>

lemma stop_stop: "stop (stop s) = stop s"
  by (simp add: stop_def Let_def split: option.splits)

lemma stop_funpow: "(stop ^^ Suc k) s = stop s"
  by (induction k) (simp_all add: stop_stop)

lemma cancels_stop: "cancels (stop s) \<le> Suc (cancels s)"
  by (simp add: stop_def Let_def split: option.splits)

text \<open>
  C9. \<open>stop\<close> is a total function of the state (it has no failing branch). Any number of
  calls in a row leave the state that the first one left, and \<open>cancel()\<close> has been called
  at most once in them. Where \<open>start\<close> has not run, or has exited (its \<open>finally\<close> clause has
  reset both fields), \<open>stop\<close> changes nothing.
\<close>

theorem stop_idempotent:
  "stop (stop s) = stop s \<and>
   (stop ^^ Suc k) s = stop s \<and>
   cancels ((stop ^^ k) s) \<le> Suc (cancels s) \<and>
   (stop_event s = None \<and> tg s = None \<longrightarrow> stop s = s) \<and>
   stop (new_task_system d dis n) = new_task_system d dis n \<and>
   (loop_pc (loop_step i s) = L_finished x \<and> loop_pc s \<noteq> L_finished x \<longrightarrow>
      stop (loop_step i s) = loop_step i s)"
proof -
  have a: "cancels ((stop ^^ k) s) \<le> Suc (cancels s)"
  proof (cases k)
    case 0
    then show ?thesis by simp
  next
    case (Suc j)
    then show ?thesis using stop_funpow [of j s] cancels_stop [of s] by simp
  qed
  have b: "stop_event s = None \<and> tg s = None \<longrightarrow> stop s = s"
    by (simp add: stop_def)
  have c: "stop (new_task_system d dis n) = new_task_system d dis n"
    by (simp add: stop_def new_task_system_def)
  have d: "loop_pc (loop_step i s) = L_finished x \<and> loop_pc s \<noteq> L_finished x \<longrightarrow>
      stop (loop_step i s) = loop_step i s"
    by (cases "loop_pc s"; cases i)
      (auto simp: loop_step_def loop_test_def start_soon_def fail_loop_def stop_def Let_def
        split: option.splits bool.splits if_splits)
  show ?thesis using a b c d stop_stop [of s] stop_funpow [of k s] by blast
qed

theorem stop_idempotent_witness:
  "stop (stop ts1) = stop ts1 \<and> stop_event (stop ts1) = Some True \<and> tg (stop ts1) = Some True \<and>
   cancels ((stop ^^ 3) ts1) \<le> Suc (cancels ts1) \<and>
   stop_event ts0 = None \<and> tg ts0 = None \<and> stop ts0 = ts0 \<and>
   loop_pc (loop_step Init_returns ts_joining) = L_finished None \<and>
   loop_pc ts_joining \<noteq> L_finished None \<and>
   stop (loop_step Init_returns ts_joining) = loop_step Init_returns ts_joining"
proof -
  have h0: "stop_event ts0 = None \<and> tg ts0 = None"
    by (simp add: sample_defs loop_defs)
  have hj: "loop_pc (loop_step Init_returns ts_joining) = L_finished None \<and>
      loop_pc ts_joining \<noteq> L_finished None"
    by (simp add: run_defs sample_defs loop_defs is_done_def)
  have h1: "stop_event (stop ts1) = Some True \<and> tg (stop ts1) = Some True"
    by (simp add: sample_defs loop_defs)
  show ?thesis
    using h0 hj h1 stop_idempotent [of ts1 3] stop_idempotent [of ts0]
      stop_idempotent [of ts_joining _ _ _ _ Init_returns None]
    by blast
qed

text \<open>
  C10. After \<open>set_task_system(ts)\<close>, \<open>get_task_system()\<close> returns \<open>ts\<close>; a second
  \<open>set_task_system\<close> replaces the stored instance, with no check and no error, whatever
  was stored before.
\<close>

theorem set_then_get_task_system:
  "get_task_system (set_task_system ts g) = Inr ts \<and>
   get_task_system (set_task_system ts2 (set_task_system ts1 g)) = Inr ts2 \<and>
   set_task_system ts2 (set_task_system ts1 g) = set_task_system ts2 g"
  by (simp add: get_task_system_def set_task_system_def)

end
